theory Spec2Isabelle
  imports Main "HOL-Library.AList"
begin

section \<open>Values shared by the whole importer\<close>

text \<open>
  A thrown JavaScript value.  Everything the importer throws itself is made by
  \<^verbatim>\<open>new Error(msg)\<close>; collaborators may throw other error classes (a
  \<^verbatim>\<open>SyntaxError\<close> from a JSON parser, say), so an exception carries its class name
  and its message.  A function that may throw returns \<open>error + 'a\<close>, the exception on
  the left.
\<close>

datatype error = Exception (exn_name: string) (exn_message: string)

abbreviation Error :: "string \<Rightarrow> error" where
  "Error msg \<equiv> Exception ''Error'' msg"

text \<open>
  What a template literal makes of a caught exception, \<^verbatim>\<open>`${e}`\<close>: the method
  \<^verbatim>\<open>Error.prototype.toString\<close>.
\<close>

definition toString :: "error \<Rightarrow> string" where
  "toString e =
     (if exn_name e = [] then exn_message e
      else if exn_message e = [] then exn_name e
      else exn_name e @ '': '' @ exn_message e)"

text \<open>
  \<^verbatim>\<open>s.split(c)\<close> for a one-character separator: the pieces between the
  separators, in order; a string without separator is its only piece, and the empty
  string gives one empty piece.
\<close>

fun split :: "char \<Rightarrow> string \<Rightarrow> string list" where
  "split c [] = [[]]"
| "split c (x # xs) =
     (let r = split c xs in if x = c then [] # r else (x # hd r) # tl r)"

text \<open>\<^verbatim>\<open>xs[i]\<close>: \<^verbatim>\<open>undefined\<close> (here \<open>None\<close>) out of range.\<close>

definition at :: "'a list \<Rightarrow> nat \<Rightarrow> 'a option" where
  "at xs i = (if i < length xs then Some (xs ! i) else None)"

definition startsWith :: "string \<Rightarrow> string \<Rightarrow> bool" where
  "startsWith s p = (take (length p) s = p)"

section \<open>The schema and the descriptors\<close>

record GroupVersionKind =
  gvk_group :: string
  gvk_kind :: string
  gvk_version :: string

text \<open>
  A schema node, with the members of \<^verbatim>\<open>JSONSchema4\<close> that the importer reads or
  writes; an absent member is \<open>None\<close>.  An object with string keys
  (\<^verbatim>\<open>properties\<close>, \<^verbatim>\<open>definitions\<close>) is the list of its entries in the
  order in which \<^verbatim>\<open>Object.entries\<close> enumerates them; its keys are distinct.
  The member \<^verbatim>\<open>x-kubernetes-group-version-kind\<close> has the type the source casts it
  to, \<^verbatim>\<open>GroupVersionKind[]\<close>.
\<close>

datatype JSONSchema4 = JSONSchema4
  (ref: "string option")
  (schema_type: "string option")
  (description: "string option")
  (x_kubernetes_group_version_kind: "GroupVersionKind list option")
  (properties: "(string \<times> JSONSchema4) list option")
  (definitions: "(string \<times> JSONSchema4) list option")

text \<open>The object literal \<^verbatim>\<open>{ $ref: r }\<close>: a node with no other member.\<close>

definition refTo :: "string \<Rightarrow> JSONSchema4" where
  "refTo r = JSONSchema4 (Some r) None None None None None"

record ApiObjectDefinition =
  custom :: bool
  fqn :: string
  group :: string
  kind :: string
  version :: string
  schema :: JSONSchema4
  prefix :: string

text \<open>
  What \<^verbatim>\<open>parseApiTypeName\<close> returns, with the members the importer reads: the
  key itself, its base name, and its version (absent for a key that is not versioned),
  of which only the raw text is read.
\<close>

record ApiTypeVersion =
  raw :: string

record ApiTypeName =
  fullname :: string
  basename :: string
  tn_version :: "ApiTypeVersion option"

text \<open>
  The effects a run performs on its collaborators, in the order in which it performs
  them.
\<close>

datatype event =
    ConsoleError string
  | Download string
  | AddDefinition string JSONSchema4
  | GenerateConstruct ApiObjectDefinition
  | EmitHeader bool
  | CodeLine string

section \<open>Matching an import spec\<close>

definition DEFAULT_API_VERSION :: string where
  "DEFAULT_API_VERSION = ''1.25.0''"

definition DEFAULT_CLASS_NAME_PREFIX :: string where
  "DEFAULT_CLASS_NAME_PREFIX = ''Kube''"

record ImportSpec =
  source :: string

record Argv =
  argv_exclude :: "string list option"

record ImportKubernetesApiOptions =
  apiVersion :: string
  exclude :: "string list option"

definition isDigit :: "char \<Rightarrow> bool" where
  "isDigit c = (c \<in> set ''0123456789'')"

text \<open>
  \<^verbatim>\<open>/^\d+\.\d+\.\d+$/.test(s)\<close>.  A digit is never a dot, so the expression
  matches exactly the strings that the dots cut into three pieces, each a non-empty
  run of digits.
\<close>

definition digits1 :: "string \<Rightarrow> bool" where
  "digits1 s = (s \<noteq> [] \<and> list_all isDigit s)"

definition k8sVersionRegex_test :: "string \<Rightarrow> bool" where
  "k8sVersionRegex_test s =
     (case split (CHR ''.'') s of
        [a, b, c] \<Rightarrow> digits1 a \<and> digits1 b \<and> digits1 c
      | _ \<Rightarrow> False)"

text \<open>
  \<^verbatim>\<open>source.split('@')[1] ?? DEFAULT_API_VERSION\<close>: the piece between the first
  and the second \<^verbatim>\<open>@\<close>, the default when there is no \<^verbatim>\<open>@\<close>.
\<close>

definition k8sVersionOf :: "string \<Rightarrow> string" where
  "k8sVersionOf src =
     (case at (split (CHR ''@'') src) 1 of
        Some v \<Rightarrow> v
      | None \<Rightarrow> DEFAULT_API_VERSION)"

text \<open>
  \<^verbatim>\<open>ImportKubernetesApi.match\<close>.  The result pairs the effects performed with
  what the promise settles to: \<open>Inl\<close> a rejection, \<open>Inr None\<close> for
  \<^verbatim>\<open>undefined\<close> (the spec is not for this importer), \<open>Inr (Some opts)\<close> otherwise.
\<close>

definition match ::
  "ImportSpec \<Rightarrow> Argv \<Rightarrow> event list \<times> (error + ImportKubernetesApiOptions option)"
where
  "match importSpec argv =
     (let src = source importSpec in
      if src \<noteq> ''k8s'' \<and> \<not> startsWith src ''k8s@'' then ([], Inr None)
      else
        let k8sVersion = k8sVersionOf src in
        if \<not> k8sVersionRegex_test k8sVersion then
          ([], Inl (Error (''Expected k8s version \"'' @ k8sVersion @
                 ''\" to match format \"<major>.<minor>.<patch>\".'')))
        else
          ([ConsoleError (''Importing k8s v'' @ k8sVersion @ ''...'')],
           Inr (Some \<lparr>apiVersion = k8sVersion, exclude = argv_exclude argv\<rparr>)))"

section \<open>Classifying and scanning the definitions\<close>

text \<open>
  \<^verbatim>\<open>tryGetObjectName\<close>.  An array and an object are truthy whatever they hold, so
  each of the three tests of the source fails exactly on \<^verbatim>\<open>undefined\<close>: the
  annotation is absent, it has no first element, or there is no
  \<^verbatim>\<open>properties.metadata\<close> (\<^verbatim>\<open>?.\<close> gives \<^verbatim>\<open>undefined\<close> when
  \<^verbatim>\<open>properties\<close> is absent).
\<close>

definition tryGetObjectName :: "JSONSchema4 \<Rightarrow> GroupVersionKind option" where
  "tryGetObjectName defn =
     (case x_kubernetes_group_version_kind defn of
        None \<Rightarrow> None
      | Some objectNames \<Rightarrow>
          (case at objectNames 0 of
             None \<Rightarrow> None
           | Some objectName \<Rightarrow>
               (case (case properties defn of
                        None \<Rightarrow> None
                      | Some ps \<Rightarrow> map_of ps ''metadata'') of
                  None \<Rightarrow> None
                | Some metadata \<Rightarrow> Some objectName)))"

text \<open>
  The loop of \<^verbatim>\<open>findApiObjectDefinitions\<close> over the entries that are left, with
  the array \<^verbatim>\<open>result\<close> built so far.  The parser \<^verbatim>\<open>parseApiTypeName\<close> is a
  parameter; it may throw.  A throw leaves the loop and the function: the array built
  so far is local and is lost.
\<close>

fun scanEntries ::
  "(string \<Rightarrow> error + ApiTypeName) \<Rightarrow> string \<Rightarrow> (string \<times> JSONSchema4) list \<Rightarrow>
   ApiObjectDefinition list \<Rightarrow> error + ApiObjectDefinition list"
where
  "scanEntries parse pfx [] result = Inr result"
| "scanEntries parse pfx ((typename, apischema) # rest) result =
     (case tryGetObjectName apischema of
        None \<Rightarrow> scanEntries parse pfx rest result
      | Some objectName \<Rightarrow>
          (case parse typename of
             Inl e \<Rightarrow> Inl e
           | Inr ty \<Rightarrow>
               (case tn_version ty of
                  None \<Rightarrow> Inl (Error (''Unable to parse version for type: '' @ typename))
                | Some v \<Rightarrow>
                    scanEntries parse pfx rest
                      (result @
                       [\<lparr>custom = False,
                         fqn = fullname ty,
                         group = gvk_group objectName,
                         kind = gvk_kind objectName,
                         version = gvk_version objectName,
                         schema = apischema,
                         prefix = pfx\<rparr>]))))"

text \<open>\<^verbatim>\<open>Object.entries(schema.definitions || { })\<close>.\<close>

definition definitionEntries :: "JSONSchema4 \<Rightarrow> (string \<times> JSONSchema4) list" where
  "definitionEntries sch = (case definitions sch of None \<Rightarrow> [] | Some ds \<Rightarrow> ds)"

definition findApiObjectDefinitions ::
  "(string \<Rightarrow> error + ApiTypeName) \<Rightarrow> JSONSchema4 \<Rightarrow> string \<Rightarrow>
   error + ApiObjectDefinition list"
where
  "findApiObjectDefinitions parse sch pfx = scanEntries parse pfx (definitionEntries sch) []"

section \<open>Retrieving the schema\<close>

definition schemaUrl :: "string \<Rightarrow> string" where
  "schemaUrl apiVer =
     ''https://raw.githubusercontent.com/cdk8s-team/cdk8s/master/kubernetes-schemas/v'' @
     apiVer @ ''/_definitions.json''"

definition notFoundHint :: "string \<Rightarrow> string" where
  "notFoundHint apiVer =
     ''Could not find a schema for k8s version '' @ apiVer @
     ''. The current list of available schemas is at '' @
     ''https://github.com/cdk8s-team/cdk8s/tree/master/kubernetes-schemas.''"

text \<open>
  \<^verbatim>\<open>downloadSchema\<close>, over its two collaborators: \<^verbatim>\<open>download\<close> (from a URL to
  the text found there) and \<^verbatim>\<open>safeParseJsonSchema\<close> (from the text to a schema).
  Either may throw.
\<close>

definition downloadSchema ::
  "(string \<Rightarrow> error + string) \<Rightarrow> (string \<Rightarrow> error + JSONSchema4) \<Rightarrow> string \<Rightarrow>
   event list \<times> (error + JSONSchema4)"
where
  "downloadSchema download safeParseJsonSchema apiVer =
     (let url = schemaUrl apiVer in
      case download url of
        Inl e \<Rightarrow> ([Download url, ConsoleError (notFoundHint apiVer)], Inl e)
      | Inr output \<Rightarrow>
          (case safeParseJsonSchema output of
             Inr sch \<Rightarrow> ([Download url], Inr sch)
           | Inl e \<Rightarrow>
               ([Download url],
                Inl (Error (''Unable to parse schema at '' @ url @ '': '' @ toString e)))))"

section \<open>Generating the types\<close>

text \<open>
  The function handed to the rendering engine as \<^verbatim>\<open>renderTypeName\<close>, over the
  parser and over \<^verbatim>\<open>getTypeName\<close> of the code generator, which builds a type name
  from the flag \<^verbatim>\<open>custom\<close>, a base name and the raw version.
\<close>

definition renderTypeName ::
  "(string \<Rightarrow> error + ApiTypeName) \<Rightarrow> (bool \<Rightarrow> string \<Rightarrow> string \<Rightarrow> string) \<Rightarrow> string \<Rightarrow>
   error + string"
where
  "renderTypeName parse getTypeName defn =
     (case parse defn of
        Inl e \<Rightarrow> Inl e
      | Inr parsed \<Rightarrow>
          (case tn_version parsed of
             None \<Rightarrow> Inr (basename parsed)
           | Some v \<Rightarrow> Inr (getTypeName False (basename parsed) (raw v))))"

text \<open>
  Modelled from the spec: the rendering engine \<^verbatim>\<open>TypeGenerator\<close> is a library
  outside this repository.  Of its state the importer sets the definition graph, the
  exclusion list and the name-rendering function; the rest is the engine's own (\<open>'s\<close>).
  \<^verbatim>\<open>addDefinition\<close> is its call "add/replace this key's definition": the key keeps
  its place in the graph when it is there already and is added at the end otherwise.
\<close>

record 's TypeGenerator =
  tg_definitions :: "(string \<times> JSONSchema4) list"
  tg_exclude :: "string list option"
  tg_renderTypeName :: "string \<Rightarrow> error + string"
  tg_engine :: 's

definition addDefinition :: "'s TypeGenerator \<Rightarrow> string \<Rightarrow> JSONSchema4 \<Rightarrow> 's TypeGenerator" where
  "addDefinition tg typeName defn =
     tg\<lparr>tg_definitions := AList.update typeName defn (tg_definitions tg)\<rparr>"

text \<open>
  The first loop of \<^verbatim>\<open>generateTypeScript\<close>: every descriptor's key is replaced by
  a reference to its properties type, whose name \<^verbatim>\<open>getPropsTypeName\<close> of the code
  generator gives.
\<close>

fun rewriteDefinitions ::
  "(ApiObjectDefinition \<Rightarrow> string) \<Rightarrow> ApiObjectDefinition list \<Rightarrow> 's TypeGenerator \<Rightarrow>
   event list \<times> 's TypeGenerator"
where
  "rewriteDefinitions propsName [] tg = ([], tg)"
| "rewriteDefinitions propsName (obj # objs) tg =
     (let d = refTo (''#/definitions/'' @ propsName obj);
          (evs, tg') = rewriteDefinitions propsName objs (addDefinition tg (fqn obj) d)
      in (AddDefinition (fqn obj) d # evs, tg'))"

text \<open>
  The second loop: \<^verbatim>\<open>generateConstruct\<close> of the code generator for every
  descriptor, on the engine as the calls before left it.  A throw ends the loop.
\<close>

fun generateConstructs ::
  "('s TypeGenerator \<Rightarrow> ApiObjectDefinition \<Rightarrow> error + 's TypeGenerator) \<Rightarrow>
   ApiObjectDefinition list \<Rightarrow> 's TypeGenerator \<Rightarrow> event list \<times> (error + 's TypeGenerator)"
where
  "generateConstructs gen [] tg = ([], Inr tg)"
| "generateConstructs gen (obj # objs) tg =
     (case gen tg obj of
        Inl e \<Rightarrow> ([GenerateConstruct obj], Inl e)
      | Inr tg' \<Rightarrow>
          (let (evs, r) = generateConstructs gen objs tg'
           in (GenerateConstruct obj # evs, r)))"

text \<open>The collaborators of one import run.\<close>

record 's Collaborators =
  c_download :: "string \<Rightarrow> error + string"
  c_safeParseJsonSchema :: "string \<Rightarrow> error + JSONSchema4"
  c_parseApiTypeName :: "string \<Rightarrow> error + ApiTypeName"
  c_getTypeName :: "bool \<Rightarrow> string \<Rightarrow> string \<Rightarrow> string"
  c_getPropsTypeName :: "ApiObjectDefinition \<Rightarrow> string"
  c_generateConstruct :: "'s TypeGenerator \<Rightarrow> ApiObjectDefinition \<Rightarrow> error + 's TypeGenerator"
  c_render :: "'s TypeGenerator \<Rightarrow> error + string"
  c_engine0 :: 's

record GenerateOptions =
  classNamePrefix :: "string option"

text \<open>\<^verbatim>\<open>new TypeGenerator({ definitions, exclude, renderTypeName })\<close>.\<close>

definition newTypeGenerator ::
  "'s Collaborators \<Rightarrow> ImportKubernetesApiOptions \<Rightarrow> JSONSchema4 \<Rightarrow> 's TypeGenerator"
where
  "newTypeGenerator c opts sch =
     \<lparr>tg_definitions = definitionEntries sch,
      tg_exclude = exclude opts,
      tg_renderTypeName = renderTypeName (c_parseApiTypeName c) (c_getTypeName c),
      tg_engine = c_engine0 c\<rparr>"

text \<open>
  \<^verbatim>\<open>ImportKubernetesApi.generateTypeScript\<close>: the effects of the run, and whether
  it throws.
\<close>

definition generateTypeScript ::
  "'s Collaborators \<Rightarrow> ImportKubernetesApiOptions \<Rightarrow> string \<Rightarrow> GenerateOptions \<Rightarrow>
   event list \<times> (error + unit)"
where
  "generateTypeScript c opts moduleName options =
     (case downloadSchema (c_download c) (c_safeParseJsonSchema c) (apiVersion opts) of
        (ev1, Inl e) \<Rightarrow> (ev1, Inl e)
      | (ev1, Inr sch) \<Rightarrow>
          if moduleName \<noteq> ''k8s'' then
            (ev1, Inl (Error (''unexpected module name \"'' @ moduleName @
                     ''\" when importing k8s types (expected \"k8s\")'')))
          else
            let pfx = (case classNamePrefix options of
                         Some p \<Rightarrow> p
                       | None \<Rightarrow> DEFAULT_CLASS_NAME_PREFIX)
            in
            (case findApiObjectDefinitions (c_parseApiTypeName c) sch pfx of
               Inl e \<Rightarrow> (ev1, Inl e)
             | Inr topLevelObjects \<Rightarrow>
                 (let typeGenerator = newTypeGenerator c opts sch;
                      (ev2, tg2) =
                        rewriteDefinitions (c_getPropsTypeName c) topLevelObjects typeGenerator
                  in
                  case generateConstructs (c_generateConstruct c) topLevelObjects tg2 of
                    (ev3, Inl e) \<Rightarrow> (ev1 @ ev2 @ ev3, Inl e)
                  | (ev3, Inr tg3) \<Rightarrow>
                      (case c_render c tg3 of
                         Inl e \<Rightarrow> (ev1 @ ev2 @ ev3 @ [EmitHeader False], Inl e)
                       | Inr rendered \<Rightarrow>
                           (ev1 @ ev2 @ ev3 @ [EmitHeader False, CodeLine rendered], Inr ())))))"

section \<open>Collaborators of the code generator that the properties need\<close>

text \<open>
  Modelled from the spec: \<^verbatim>\<open>parseApiTypeName\<close> of \<^verbatim>\<open>./k8s-util\<close> is not part
  of the sources at hand.  The spec (4.1) has a key encode a reverse-path-like
  namespace, then optionally a version segment, then a base name; its keys are
  \<^verbatim>\<open>io.k8s.apimachinery.pkg.apis.meta.v1.DeleteOptions\<close> and
  \<^verbatim>\<open>grp/v1.Widget\<close>.  So the segments of a key are cut at dots and slashes, the
  base name is the trailing segment and the version segment is the one before it.  A
  version is structured: \<^verbatim>\<open>v\<close>, a number, and optionally a level and a second
  number (\<^verbatim>\<open>v1\<close>, \<^verbatim>\<open>v1beta1\<close>).  A segment that starts like a version and is
  not one is the malformed version of the spec, an error; any other segment means that
  the key has no version.  The properties below hold for every parser; this one serves
  where a parser has to be run.
\<close>

definition isLower :: "char \<Rightarrow> bool" where
  "isLower c = (c \<in> set ''abcdefghijklmnopqrstuvwxyz'')"

definition segments :: "string \<Rightarrow> string list" where
  "segments key = split (CHR ''.'') (map (\<lambda>c. if c = CHR ''/'' then CHR ''.'' else c) key)"

definition versionSegment :: "string \<Rightarrow> bool" where
  "versionSegment seg =
     (case seg of
        [] \<Rightarrow> False
      | v # rest \<Rightarrow>
          v = CHR ''v'' \<and>
          (let major = takeWhile isDigit rest;
               r1 = dropWhile isDigit rest;
               level = takeWhile isLower r1;
               sub = dropWhile isLower r1
           in major \<noteq> [] \<and> (r1 = [] \<or> (level \<noteq> [] \<and> digits1 sub))))"

definition looksVersioned :: "string \<Rightarrow> bool" where
  "looksVersioned seg =
     (case seg of v # d # rest \<Rightarrow> v = CHR ''v'' \<and> isDigit d | _ \<Rightarrow> False)"

definition parseApiTypeName :: "string \<Rightarrow> error + ApiTypeName" where
  "parseApiTypeName key =
     (let parts = segments key;
          seg = (if 2 \<le> length parts then parts ! (length parts - 2) else [])
      in if versionSegment seg then
           Inr \<lparr>fullname = key, basename = last parts, tn_version = Some \<lparr>raw = seg\<rparr>\<rparr>
         else if looksVersioned seg then
           Inl (Error (''InvalidIdentifierFormat: '' @ key))
         else
           Inr \<lparr>fullname = key, basename = last parts, tn_version = None\<rparr>)"

text \<open>
  Modelled from the spec: \<^verbatim>\<open>getTypeName\<close> and \<^verbatim>\<open>getPropsTypeName\<close> of
  \<^verbatim>\<open>./codegen\<close>, and the wrapper name beside them, are not part of the sources at
  hand.  The importer calls \<^verbatim>\<open>getTypeName(custom, kind, version)\<close> with a base name
  and a raw version.  The spec names the identity grp, v1, Widget under the prefix
  \<^verbatim>\<open>Kube\<close> as \<^verbatim>\<open>KubeWidget\<close>, with the properties type
  \<^verbatim>\<open>KubeWidgetProps\<close> (8.7); it has all the versions of a kind named separately
  (9, 4.5), and the capitalization normalized (4.4).  So the name of a kind at version
  \<^verbatim>\<open>v1\<close> is the kind itself, and at any other version the kind followed by the
  version with every run of letters capitalized (\<^verbatim>\<open>WidgetV1Beta1\<close>).  The spec
  gives the flag \<^verbatim>\<open>custom\<close> no part in the name, and the importer always passes
  false.  The wrapper name is the prefix followed by this name, the properties name the
  wrapper name followed by \<^verbatim>\<open>Props\<close>.  What else the normalization of a whole name
  does the spec does not say, so it is a parameter.
\<close>

definition toUpper :: "char \<Rightarrow> char" where
  "toUpper c =
     (case map_of (zip ''abcdefghijklmnopqrstuvwxyz'' ''ABCDEFGHIJKLMNOPQRSTUVWXYZ'') c of
        Some u \<Rightarrow> u
      | None \<Rightarrow> c)"

definition isLetter :: "char \<Rightarrow> bool" where
  "isLetter c = (isLower c \<or> c \<in> set ''ABCDEFGHIJKLMNOPQRSTUVWXYZ'')"

fun capitalizeRuns :: "bool \<Rightarrow> string \<Rightarrow> string" where
  "capitalizeRuns start [] = []"
| "capitalizeRuns start (c # cs) =
     (if isLetter c then (if start then toUpper c else c) # capitalizeRuns False cs
      else c # capitalizeRuns True cs)"

text \<open>
  Modelled from the spec: \<^verbatim>\<open>getTypeName\<close> of \<^verbatim>\<open>./codegen\<close> (absent): the kind
  itself at version \<^verbatim>\<open>v1\<close>, the kind followed by the capitalized version otherwise.
\<close>

definition getTypeName :: "bool \<Rightarrow> string \<Rightarrow> string \<Rightarrow> string" where
  "getTypeName cust knd ver =
     (if ver = ''v1'' then knd else knd @ capitalizeRuns True ver)"

text \<open>
  Modelled from the spec: the wrapper name of \<^verbatim>\<open>./codegen\<close> (absent): the normalized
  prefix followed by the name of kind and version.
\<close>

definition getConstructTypeName :: "(string \<Rightarrow> string) \<Rightarrow> ApiObjectDefinition \<Rightarrow> string" where
  "getConstructTypeName norm obj =
     norm (prefix obj @ getTypeName (custom obj) (kind obj) (version obj))"

text \<open>
  Modelled from the spec: \<^verbatim>\<open>getPropsTypeName\<close> of \<^verbatim>\<open>./codegen\<close> (absent): the
  wrapper name followed by the fixed suffix.
\<close>

definition getPropsTypeName :: "(string \<Rightarrow> string) \<Rightarrow> ApiObjectDefinition \<Rightarrow> string" where
  "getPropsTypeName norm obj = getConstructTypeName norm obj @ ''Props''"

section \<open>Sample graphs\<close>

text \<open>
  The resource of the spec's end-to-end scenario (8.7): a node annotated with the
  identity grp, v1, Widget and with a \<^verbatim>\<open>metadata\<close> property, and a plain
  shape.
\<close>

definition widgetIdentity :: GroupVersionKind where
  "widgetIdentity = \<lparr>gvk_group = ''grp'', gvk_kind = ''Widget'', gvk_version = ''v1''\<rparr>"

definition objectNode :: JSONSchema4 where
  "objectNode = JSONSchema4 None (Some ''object'') None None None None"

definition widgetNode :: JSONSchema4 where
  "widgetNode =
     JSONSchema4 None (Some ''object'') None (Some [widgetIdentity])
       (Some [(''metadata'', objectNode),
              (''spec'', refTo ''#/definitions/grp/v1.WidgetSpec'')])
       None"

definition schemaOf :: "(string \<times> JSONSchema4) list \<Rightarrow> JSONSchema4" where
  "schemaOf ds = JSONSchema4 None None None None None (Some ds)"

text \<open>The same resource under a second key whose name has no version segment.\<close>

definition unversionedSchema :: JSONSchema4 where
  "unversionedSchema = schemaOf [(''grp/v1.Widget'', widgetNode), (''grp.Widget'', widgetNode)]"

text \<open>The same resource under the keys of two groups.\<close>

definition twoGroupsSchema :: JSONSchema4 where
  "twoGroupsSchema = schemaOf [(''grp/v1.Widget'', widgetNode), (''other/v1.Widget'', widgetNode)]"

text \<open>The descriptor that the scan makes of the node \<^verbatim>\<open>widgetNode\<close> under a key.\<close>

definition widgetAt :: "string \<Rightarrow> ApiObjectDefinition" where
  "widgetAt key =
     \<lparr>custom = False, fqn = key, group = ''grp'', kind = ''Widget'', version = ''v1'',
      schema = widgetNode, prefix = ''Kube''\<rparr>"

text \<open>
  A graph with one kind in two versions and a plain shape: the deployment of the group
  apps at \<^verbatim>\<open>v1\<close> and at \<^verbatim>\<open>v1beta1\<close>, and the shape both refer to.
\<close>

definition deploymentNode :: "string \<Rightarrow> JSONSchema4" where
  "deploymentNode ver =
     JSONSchema4 None (Some ''object'') None
       (Some [\<lparr>gvk_group = ''apps'', gvk_kind = ''Deployment'', gvk_version = ver\<rparr>])
       (Some [(''metadata'', objectNode),
              (''spec'', refTo ''#/definitions/apps.v1.DeploymentSpec'')])
       None"

definition deploymentSchema :: JSONSchema4 where
  "deploymentSchema =
     schemaOf [(''apps.v1.Deployment'', deploymentNode ''v1''),
               (''apps.v1.DeploymentSpec'', objectNode),
               (''apps.v1beta1.Deployment'', deploymentNode ''v1beta1'')]"

definition deploymentAt :: "string \<Rightarrow> string \<Rightarrow> ApiObjectDefinition" where
  "deploymentAt key ver =
     \<lparr>custom = False, fqn = key, group = ''apps'', kind = ''Deployment'', version = ver,
      schema = deploymentNode ver, prefix = ''Kube''\<rparr>"




text \<open>
  Collaborators for a run on a sample graph, where a run has to be evaluated: the
  download gives a text that parses to the graph, the parser and the names are the ones
  modelled above (with a normalization that changes nothing), and construct generation
  and rendering succeed and leave the engine alone.
\<close>

definition sampleOptions :: ImportKubernetesApiOptions where
  "sampleOptions = \<lparr>apiVersion = ''1.25.0'', exclude = None\<rparr>"

definition sampleRun :: "JSONSchema4 \<Rightarrow> unit Collaborators" where
  "sampleRun sch =
     \<lparr>c_download = (\<lambda>url. Inr ''{}''),
      c_safeParseJsonSchema = (\<lambda>output. Inr sch),
      c_parseApiTypeName = parseApiTypeName,
      c_getTypeName = getTypeName,
      c_getPropsTypeName = getPropsTypeName id,
      c_generateConstruct = (\<lambda>tg obj. Inr tg),
      c_render = (\<lambda>tg. Inr ''// generated''),
      c_engine0 = ()\<rparr>"

text \<open>Whether an effect is one of the two calls on the definition graph.\<close>

definition graphCall :: "event \<Rightarrow> bool" where
  "graphCall ev =
     (case ev of AddDefinition k d \<Rightarrow> True | GenerateConstruct obj \<Rightarrow> True | _ \<Rightarrow> False)"

text \<open>The call that the first loop of a run makes for a descriptor.\<close>

definition rewriteEvent :: "(ApiObjectDefinition \<Rightarrow> string) \<Rightarrow> ApiObjectDefinition \<Rightarrow> event" where
  "rewriteEvent propsName obj =
     AddDefinition (fqn obj) (refTo (''#/definitions/'' @ propsName obj))"

text \<open>The entries of a graph that the classifier accepts, and a descriptor's identity.\<close>

definition accepted :: "(string \<times> JSONSchema4) list \<Rightarrow> (string \<times> JSONSchema4) list" where
  "accepted es = filter (\<lambda>e. tryGetObjectName (snd e) \<noteq> None) es"

definition tripleOf :: "ApiObjectDefinition \<Rightarrow> GroupVersionKind" where
  "tripleOf obj = \<lparr>gvk_group = group obj, gvk_kind = kind obj, gvk_version = version obj\<rparr>"

text \<open>The first-listed identities of the entries that the classifier accepts, in order.\<close>

definition acceptedTriples :: "(string \<times> JSONSchema4) list \<Rightarrow> GroupVersionKind list" where
  "acceptedTriples es = List.map_filter (\<lambda>e. tryGetObjectName (snd e)) es"




text \<open>
  The name that a node points at when it is an indirection, and the name that a key of
  a graph resolves to through the indirection found at the key.
\<close>

definition refName :: "JSONSchema4 \<Rightarrow> string option" where
  "refName d =
     (case ref d of
        None \<Rightarrow> None
      | Some r \<Rightarrow>
          if startsWith r ''#/definitions/'' then Some (drop (length ''#/definitions/'') r)
          else None)"

definition resolveKey :: "(string \<times> JSONSchema4) list \<Rightarrow> string \<Rightarrow> string option" where
  "resolveKey graph k = (case map_of graph k of None \<Rightarrow> None | Some d \<Rightarrow> refName d)"

text \<open>
  What a run does once the first loop is over, with the effects so far and the engine as
  the first loop left it: the second loop, the header and the rendering.
\<close>

definition finishRun ::
  "'s Collaborators \<Rightarrow> event list \<Rightarrow> ApiObjectDefinition list \<Rightarrow> 's TypeGenerator \<Rightarrow>
   event list \<times> (error + unit)"
where
  "finishRun c evs objs tg =
     (case generateConstructs (c_generateConstruct c) objs tg of
        (ev3, Inl e) \<Rightarrow> (evs @ ev3, Inl e)
      | (ev3, Inr tg3) \<Rightarrow>
          (case c_render c tg3 of
             Inl e \<Rightarrow> (evs @ ev3 @ [EmitHeader False], Inl e)
           | Inr rendered \<Rightarrow> (evs @ ev3 @ [EmitHeader False, CodeLine rendered], Inr ())))"

section \<open>Splitting a string\<close>

lemma split_not_Nil: "split c s \<noteq> []"
  by (induction s) (auto simp: Let_def)

lemma split_no_sep: "c \<notin> set s \<Longrightarrow> split c s = [s]"
  by (induction s) (auto simp: Let_def)

lemma split_length: "length (split c s) = Suc (length (filter (\<lambda>x. x = c) s))"
proof (induction s)
  case Nil
  show ?case by simp
next
  case (Cons x xs)
  have "split c xs \<noteq> []" by (rule split_not_Nil)
  then have "length (tl (split c xs)) = length (filter (\<lambda>x. x = c) xs)"
    using Cons.IH by (cases "split c xs") auto
  then show ?case using Cons.IH by (simp add: Let_def)
qed

lemma at_split_None: "(at (split c s) 1 = None) = (c \<notin> set s)"
proof -
  have "(length (filter (\<lambda>x. x = c) s) = 0) = (c \<notin> set s)"
    by (auto simp: filter_empty_conv)
  then show ?thesis by (simp add: at_def split_length)
qed

lemma startsWith_k8s_at: "startsWith src ''k8s@'' \<Longrightarrow> \<exists>rest. src = ''k8s@'' @ rest"
  unfolding startsWith_def
  by (metis append_take_drop_id)

lemma startsWith_k8s_at_set: "startsWith src ''k8s@'' \<Longrightarrow> CHR ''@'' \<in> set src"
  using startsWith_k8s_at by fastforce

lemma startsWith_k8s_at_neq: "startsWith src ''k8s@'' \<Longrightarrow> src \<noteq> ''k8s''"
  by (auto simp: startsWith_def)

lemma split_k8s_at: "split (CHR ''@'') (''k8s@'' @ rest) = ''k8s'' # split (CHR ''@'') rest"
  using split_not_Nil [of "CHR ''@''" rest] by (cases "split (CHR ''@'') rest") (simp_all add: Let_def)

lemma k8sVersionOf_suffix:
  "k8sVersionOf (''k8s@'' @ rest) = hd (split (CHR ''@'') rest)"
  using split_not_Nil [of "CHR ''@''" rest]
  by (cases "split (CHR ''@'') rest") (simp_all add: k8sVersionOf_def split_k8s_at at_def)

text \<open>
  What the matcher does reject: a source of this importer whose piece between the first
  and the second \<^verbatim>\<open>@\<close> (or the default version) does not have the format.  No
  effect has been performed by then.
\<close>

lemma match_rejects:
  assumes "source importSpec = ''k8s'' \<or> startsWith (source importSpec) ''k8s@''"
    and "\<not> k8sVersionRegex_test (k8sVersionOf (source importSpec))"
  shows "match importSpec argv =
     ([], Inl (Error (''Expected k8s version \"'' @ k8sVersionOf (source importSpec) @
                 ''\" to match format \"<major>.<minor>.<patch>\".'')))"
  using assms by (auto simp: match_def Let_def)

section \<open>The scan, entry by entry\<close>

lemma scanEntries_fails:
  "(k, d) \<in> set es \<Longrightarrow> tryGetObjectName d = Some n \<Longrightarrow>
   \<forall>ty. parse k = Inr ty \<longrightarrow> tn_version ty = None \<Longrightarrow>
   \<exists>e. scanEntries parse pfx es acc = Inl e"
proof (induction es arbitrary: acc)
  case Nil
  then show ?case by simp
next
  case (Cons x es)
  obtain k' d' where x: "x = (k', d')" by (cases x)
  show ?case
  proof (cases "(k, d) = x")
    case True
    with Cons.prems x show ?thesis
      by (auto split: sum.splits option.splits)
  next
    case False
    with Cons.prems have "(k, d) \<in> set es" by simp
    then have "\<exists>e. scanEntries parse pfx es acc' = Inl e" for acc'
      using Cons.IH Cons.prems by blast
    with x show ?thesis
      by (auto split: sum.splits option.splits)
  qed
qed

lemma acceptedTriples_accepted:
  "acceptedTriples es = map (\<lambda>e. the (tryGetObjectName (snd e))) (accepted es)"
  by (simp add: acceptedTriples_def accepted_def map_filter_def comp_def)

lemma scanEntries_triples:
  "scanEntries parse pfx es acc = Inr os \<Longrightarrow>
   map tripleOf os = map tripleOf acc @ map (\<lambda>e. the (tryGetObjectName (snd e))) (accepted es)"
proof (induction es arbitrary: acc)
  case Nil
  then show ?case by (simp add: accepted_def)
next
  case (Cons x es)
  obtain k d where x: "x = (k, d)" by (cases x)
  show ?case
  proof (cases "tryGetObjectName d")
    case None
    with Cons x show ?thesis by (simp add: accepted_def)
  next
    case (Some n)
    with Cons.prems x obtain ty v where p: "parse k = Inr ty" "tn_version ty = Some v"
      by (auto split: sum.splits option.splits)
    let ?new = "\<lparr>custom = False, fqn = fullname ty, group = gvk_group n, kind = gvk_kind n,
                 version = gvk_version n, schema = d, prefix = pfx\<rparr>"
    from Cons.prems x Some p have "scanEntries parse pfx es (acc @ [?new]) = Inr os"
      by simp
    from Cons.IH [OF this] x Some show ?thesis
      by (simp add: accepted_def tripleOf_def)
  qed
qed

lemma scanEntries_fqns:
  "\<forall>k ty. parse k = Inr ty \<longrightarrow> fullname ty = k \<Longrightarrow>
   scanEntries parse pfx es acc = Inr os \<Longrightarrow>
   map fqn os = map fqn acc @ map fst (accepted es)"
proof (induction es arbitrary: acc)
  case Nil
  then show ?case by (simp add: accepted_def)
next
  case (Cons x es)
  obtain k d where x: "x = (k, d)" by (cases x)
  show ?case
  proof (cases "tryGetObjectName d")
    case None
    with Cons x show ?thesis by (simp add: accepted_def)
  next
    case (Some n)
    with Cons.prems x obtain ty v where p: "parse k = Inr ty" "tn_version ty = Some v"
      by (auto split: sum.splits option.splits)
    with Cons.prems have fn: "fullname ty = k" by blast
    let ?new = "\<lparr>custom = False, fqn = fullname ty, group = gvk_group n, kind = gvk_kind n,
                 version = gvk_version n, schema = d, prefix = pfx\<rparr>"
    from Cons.prems x Some p have "scanEntries parse pfx es (acc @ [?new]) = Inr os"
      by simp
    from Cons.IH [OF Cons.prems(1) this] x Some fn show ?thesis
      by (simp add: accepted_def)
  qed
qed


lemma accepted_keys_distinct: "distinct (map fst es) \<Longrightarrow> distinct (map fst (accepted es))"
  by (simp add: accepted_def distinct_map_filter)

lemma accepted_subset: "fst ` set (accepted es) \<subseteq> fst ` set es"
  by (auto simp: accepted_def)

lemma scan_fqns:
  assumes "\<forall>k ty. parse k = Inr ty \<longrightarrow> fullname ty = k"
    and "findApiObjectDefinitions parse sch pfx = Inr os"
  shows "map fqn os = map fst (accepted (definitionEntries sch))"
  using scanEntries_fqns [OF assms(1) assms(2) [unfolded findApiObjectDefinitions_def]] by simp

lemma scan_triples:
  assumes "findApiObjectDefinitions parse sch pfx = Inr os"
  shows "map tripleOf os = acceptedTriples (definitionEntries sch)"
  using scanEntries_triples [OF assms [unfolded findApiObjectDefinitions_def]]
  by (simp add: acceptedTriples_accepted)







section \<open>The two loops and the effects of a run\<close>

lemma rewriteDefinitions_events:
  "fst (rewriteDefinitions propsName objs tg) = map (rewriteEvent propsName) objs"
  by (induction objs arbitrary: tg) (simp_all add: rewriteEvent_def Let_def split_def)

lemma rewriteDefinitions_graph:
  "tg_definitions (snd (rewriteDefinitions propsName objs tg)) =
     fold (\<lambda>obj. AList.update (fqn obj) (refTo (''#/definitions/'' @ propsName obj))) objs
       (tg_definitions tg)"
  by (induction objs arbitrary: tg) (simp_all add: Let_def split_def addDefinition_def)

lemma fold_update_other:
  "k \<notin> fqn ` set objs \<Longrightarrow>
   map_of (fold (\<lambda>obj. AList.update (fqn obj) (f obj)) objs al) k = map_of al k"
  by (induction objs arbitrary: al) (simp_all add: update_conv')

lemma fold_update_hit:
  "distinct (map fqn objs) \<Longrightarrow> obj \<in> set objs \<Longrightarrow>
   map_of (fold (\<lambda>obj. AList.update (fqn obj) (f obj)) objs al) (fqn obj) = Some (f obj)"
proof (induction objs arbitrary: al)
  case Nil
  then show ?case by simp
next
  case (Cons x objs)
  show ?case
  proof (cases "obj \<in> set objs")
    case True
    with Cons show ?thesis by simp
  next
    case False
    with Cons.prems have eq: "obj = x" and notin: "fqn x \<notin> fqn ` set objs" by auto
    show ?thesis
      using fold_update_other [OF notin, of f "AList.update (fqn x) (f x) al"] eq
      by (simp add: update_conv')
  qed
qed

lemma fold_update_keys:
  "fqn ` set objs \<subseteq> fst ` set al \<Longrightarrow>
   map fst (fold (\<lambda>obj. AList.update (fqn obj) (f obj)) objs al) = map fst al"
proof (induction objs arbitrary: al)
  case Nil
  then show ?case by simp
next
  case (Cons x objs)
  from Cons.prems have k: "fqn x \<in> fst ` set al" by simp
  then have keys: "map fst (AList.update (fqn x) (f x) al) = map fst al"
    by (simp add: update_keys)
  then have "fst ` set (AList.update (fqn x) (f x) al) = fst ` set al"
    by (metis list.set_map)
  with Cons.prems have "fqn ` set objs \<subseteq> fst ` set (AList.update (fqn x) (f x) al)" by simp
  from Cons.IH [OF this] keys show ?case by simp
qed

lemma generateConstructs_events:
  "\<exists>n\<le>length objs. fst (generateConstructs gen objs tg) = map GenerateConstruct (take n objs)"
proof (induction objs arbitrary: tg)
  case Nil
  show ?case by simp
next
  case (Cons x objs)
  show ?case
  proof (cases "gen tg x")
    case (Inl e)
    then have "fst (generateConstructs gen (x # objs) tg) = map GenerateConstruct (take 1 (x # objs))"
      by simp
    then show ?thesis by (intro exI [of _ 1]) simp
  next
    case (Inr tg')
    from Cons.IH [of tg'] obtain n where n: "n \<le> length objs"
      "fst (generateConstructs gen objs tg') = map GenerateConstruct (take n objs)" by blast
    with Inr have "fst (generateConstructs gen (x # objs) tg) =
        map GenerateConstruct (take (Suc n) (x # objs))"
      by (simp add: split_def)
    with n(1) show ?thesis by (intro exI [of _ "Suc n"]) simp
  qed
qed





lemma generateTypeScript_trace:
  assumes d: "downloadSchema (c_download c) (c_safeParseJsonSchema c) (apiVersion opts) = (ev1, Inr sch)"
    and m: "moduleName = ''k8s''"
    and s: "findApiObjectDefinitions (c_parseApiTypeName c) sch
              (case classNamePrefix options of Some p \<Rightarrow> p | None \<Rightarrow> DEFAULT_CLASS_NAME_PREFIX) = Inr os"
  shows "\<exists>n tail. n \<le> length os \<and> (\<forall>ev\<in>set tail. \<not> graphCall ev) \<and>
           fst (generateTypeScript c opts moduleName options) =
             ev1 @ map (rewriteEvent (c_getPropsTypeName c)) os @
             map GenerateConstruct (take n os) @ tail"
proof -
  let ?rw = "rewriteDefinitions (c_getPropsTypeName c) os (newTypeGenerator c opts sch)"
  let ?gc = "generateConstructs (c_generateConstruct c) os (snd ?rw)"
  obtain n where n: "n \<le> length os" "fst ?gc = map GenerateConstruct (take n os)"
    using generateConstructs_events by blast
  have ev2: "fst ?rw = map (rewriteEvent (c_getPropsTypeName c)) os"
    by (rule rewriteDefinitions_events)
  show ?thesis
  proof (cases "snd ?gc")
    case (Inl e)
    then have "fst (generateTypeScript c opts moduleName options) = ev1 @ fst ?rw @ fst ?gc @ []"
      using d m s by (cases ?rw; cases ?gc) (simp add: generateTypeScript_def Let_def)
    with n ev2 show ?thesis by (intro exI [of _ n] exI [of _ "[]"]) simp
  next
    case (Inr tg3)
    show ?thesis
    proof (cases "c_render c tg3")
      case (Inl e)
      with Inr have "fst (generateTypeScript c opts moduleName options) =
          ev1 @ fst ?rw @ fst ?gc @ [EmitHeader False]"
        using d m s by (cases ?rw; cases ?gc) (simp add: generateTypeScript_def Let_def)
      with n ev2 show ?thesis
        by (intro exI [of _ n] exI [of _ "[EmitHeader False]"]) (simp add: graphCall_def)
    next
      case (Inr rendered)
      with \<open>snd ?gc = Inr tg3\<close> have "fst (generateTypeScript c opts moduleName options) =
          ev1 @ fst ?rw @ fst ?gc @ [EmitHeader False, CodeLine rendered]"
        using d m s by (cases ?rw; cases ?gc) (simp add: generateTypeScript_def Let_def)
      with n ev2 show ?thesis
        by (intro exI [of _ n] exI [of _ "[EmitHeader False, CodeLine rendered]"])
           (simp add: graphCall_def)
    qed
  qed
qed

lemma generateTypeScript_late:
  assumes d: "downloadSchema (c_download c) (c_safeParseJsonSchema c) (apiVersion opts) = (ev1, Inr sch)"
    and m: "moduleName = ''k8s''"
    and s: "findApiObjectDefinitions (c_parseApiTypeName c) sch
              (case classNamePrefix options of Some p \<Rightarrow> p | None \<Rightarrow> DEFAULT_CLASS_NAME_PREFIX) = Inr os"
  shows "generateTypeScript c opts moduleName options =
           finishRun c (ev1 @ map (rewriteEvent (c_getPropsTypeName c)) os) os
             (snd (rewriteDefinitions (c_getPropsTypeName c) os (newTypeGenerator c opts sch)))"
proof -
  let ?rw = "rewriteDefinitions (c_getPropsTypeName c) os (newTypeGenerator c opts sch)"
  have ev2: "fst ?rw = map (rewriteEvent (c_getPropsTypeName c)) os"
    by (rule rewriteDefinitions_events)
  obtain ev2' tg2 where rw: "?rw = (ev2', tg2)" by (cases ?rw)
  with ev2 have e: "ev2' = map (rewriteEvent (c_getPropsTypeName c)) os" by simp
  show ?thesis
    using d m s rw e
    by (simp add: generateTypeScript_def finishRun_def Let_def split: prod.splits sum.splits)
qed



lemma refName_refTo: "refName (refTo (''#/definitions/'' @ n)) = Some n"
  by (simp add: refName_def refTo_def startsWith_def)

section \<open>The sample graphs, evaluated\<close>

lemma parseApiTypeName_fullname: "parseApiTypeName k = Inr ty \<Longrightarrow> fullname ty = k"
  by (auto simp: parseApiTypeName_def Let_def split: if_splits)

lemma widgetNode_accepted: "tryGetObjectName widgetNode = Some widgetIdentity"
  by (simp add: tryGetObjectName_def widgetNode_def at_def)

lemma objectNode_rejected: "tryGetObjectName objectNode = None"
  by (simp add: tryGetObjectName_def objectNode_def)

lemma parse_grp_Widget:
  "parseApiTypeName ''grp.Widget'' =
     Inr \<lparr>fullname = ''grp.Widget'', basename = ''Widget'', tn_version = None\<rparr>"
  by (simp add: parseApiTypeName_def segments_def versionSegment_def looksVersioned_def
        isDigit_def Let_def)

lemma parse_grp_v1_Widget:
  "parseApiTypeName ''grp/v1.Widget'' =
     Inr \<lparr>fullname = ''grp/v1.Widget'', basename = ''Widget'', tn_version = Some \<lparr>raw = ''v1''\<rparr>\<rparr>"
  by (simp add: parseApiTypeName_def segments_def versionSegment_def looksVersioned_def
        isDigit_def Let_def)

lemma parse_other_v1_Widget:
  "parseApiTypeName ''other/v1.Widget'' =
     Inr \<lparr>fullname = ''other/v1.Widget'', basename = ''Widget'', tn_version = Some \<lparr>raw = ''v1''\<rparr>\<rparr>"
  by (simp add: parseApiTypeName_def segments_def versionSegment_def looksVersioned_def
        isDigit_def Let_def)

lemma twoGroupsSchema_entries:
  "definitionEntries twoGroupsSchema = [(''grp/v1.Widget'', widgetNode), (''other/v1.Widget'', widgetNode)]"
  by (simp add: definitionEntries_def twoGroupsSchema_def schemaOf_def)

lemma scan_twoGroupsSchema:
  "findApiObjectDefinitions parseApiTypeName twoGroupsSchema ''Kube'' =
     Inr [widgetAt ''grp/v1.Widget'', widgetAt ''other/v1.Widget'']"
  by (simp add: findApiObjectDefinitions_def definitionEntries_def twoGroupsSchema_def schemaOf_def
        widgetNode_accepted parse_grp_v1_Widget parse_other_v1_Widget widgetAt_def widgetIdentity_def)

lemma deploymentNode_accepted:
  "tryGetObjectName (deploymentNode ver) =
     Some \<lparr>gvk_group = ''apps'', gvk_kind = ''Deployment'', gvk_version = ver\<rparr>"
  by (simp add: tryGetObjectName_def deploymentNode_def at_def)


lemma parse_apps_v1_Deployment:
  "parseApiTypeName ''apps.v1.Deployment'' =
     Inr \<lparr>fullname = ''apps.v1.Deployment'', basename = ''Deployment'',
          tn_version = Some \<lparr>raw = ''v1''\<rparr>\<rparr>"
  by (simp add: parseApiTypeName_def segments_def versionSegment_def looksVersioned_def
        isDigit_def Let_def)

lemma parse_apps_v1beta1_Deployment:
  "parseApiTypeName ''apps.v1beta1.Deployment'' =
     Inr \<lparr>fullname = ''apps.v1beta1.Deployment'', basename = ''Deployment'',
          tn_version = Some \<lparr>raw = ''v1beta1''\<rparr>\<rparr>"
  by (simp add: parseApiTypeName_def segments_def versionSegment_def looksVersioned_def
        isDigit_def isLower_def digits1_def Let_def)





lemma getTypeName_v1beta1: "getTypeName cust knd ''v1beta1'' = knd @ ''V1Beta1''"
  by (simp add: getTypeName_def isLetter_def isLower_def toUpper_def)

lemma getTypeName_v1: "getTypeName cust knd ''v1'' = knd"
  by (simp add: getTypeName_def)

lemma deploymentSchema_entries:
  "definitionEntries deploymentSchema =
     [(''apps.v1.Deployment'', deploymentNode ''v1''),
      (''apps.v1.DeploymentSpec'', objectNode),
      (''apps.v1beta1.Deployment'', deploymentNode ''v1beta1'')]"
  by (simp add: definitionEntries_def deploymentSchema_def schemaOf_def)


lemma scan_deploymentSchema:
  "findApiObjectDefinitions parseApiTypeName deploymentSchema ''Kube'' =
     Inr [deploymentAt ''apps.v1.Deployment'' ''v1'',
          deploymentAt ''apps.v1beta1.Deployment'' ''v1beta1'']"
  by (simp add: findApiObjectDefinitions_def deploymentSchema_entries deploymentNode_accepted
        objectNode_rejected parse_apps_v1_Deployment parse_apps_v1beta1_Deployment
        deploymentAt_def)


lemma download_sampleRun:
  "downloadSchema (c_download (sampleRun sch)) (c_safeParseJsonSchema (sampleRun sch))
     (apiVersion sampleOptions) = ([Download (schemaUrl ''1.25.0'')], Inr sch)"
  by (simp add: downloadSchema_def sampleRun_def sampleOptions_def)

lemma scan_sampleRun_deploymentSchema:
  "findApiObjectDefinitions (c_parseApiTypeName (sampleRun deploymentSchema)) deploymentSchema
      (case classNamePrefix \<lparr>classNamePrefix = None\<rparr> of
         Some p \<Rightarrow> p | None \<Rightarrow> DEFAULT_CLASS_NAME_PREFIX) =
     Inr [deploymentAt ''apps.v1.Deployment'' ''v1'',
          deploymentAt ''apps.v1beta1.Deployment'' ''v1beta1'']"
  by (simp add: sampleRun_def DEFAULT_CLASS_NAME_PREFIX_def scan_deploymentSchema)

lemma props_deployments:
  "getPropsTypeName id (deploymentAt k ''v1'') = ''KubeDeploymentProps''"
  "getPropsTypeName id (deploymentAt k ''v1beta1'') = ''KubeDeploymentV1Beta1Props''"
  by (simp_all add: getPropsTypeName_def getConstructTypeName_def deploymentAt_def
        getTypeName_v1 getTypeName_v1beta1)

lemma fqn_deploymentAt: "fqn (deploymentAt k ver) = k"
  by (simp add: deploymentAt_def)






section \<open>The classifier\<close>

text \<open>
  Claim C1.  The classifier returns a triple exactly when the node carries the
  annotation with at least one entry and declares a \<^verbatim>\<open>metadata\<close> property, and
  the triple is then the first one listed; it returns "not an API object" exactly in
  the other cases: no annotation, an empty annotation, or no \<^verbatim>\<open>metadata\<close>
  property.  It is a total function into an option, so it never throws.
\<close>

theorem tryGetObjectName_iff:
  "(tryGetObjectName defn = Some t) =
     ((\<exists>ts. x_kubernetes_group_version_kind defn = Some (t # ts)) \<and>
      (\<exists>ps. properties defn = Some ps \<and> ''metadata'' \<in> fst ` set ps)) \<and>
   (tryGetObjectName defn = None) =
     (x_kubernetes_group_version_kind defn = None \<or>
      x_kubernetes_group_version_kind defn = Some [] \<or>
      properties defn = None \<or>
      (\<exists>ps. properties defn = Some ps \<and> ''metadata'' \<notin> fst ` set ps))"
proof -
  have m: "(case map_of ps ''metadata'' of None \<Rightarrow> None | Some v \<Rightarrow> Some x) =
           (if ''metadata'' \<in> fst ` set ps then Some x else None)"
    for ps :: "(string \<times> JSONSchema4) list" and x :: GroupVersionKind
    using map_of_eq_None_iff [of ps "''metadata''"] by (cases "map_of ps ''metadata''") auto
  show ?thesis
  proof (cases "x_kubernetes_group_version_kind defn")
    case None
    then show ?thesis by (simp add: tryGetObjectName_def)
  next
    case (Some objectNames)
    show ?thesis
    proof (cases objectNames)
      case Nil
      with Some show ?thesis by (simp add: tryGetObjectName_def at_def)
    next
      case (Cons n ns)
      with Some show ?thesis
        by (cases "properties defn") (auto simp: tryGetObjectName_def at_def m)
    qed
  qed
qed

section \<open>The scan\<close>

text \<open>
  Claim C2.  When some entry that the classifier accepts has a key for which the parser
  gives no version, the scan throws: it returns no descriptors, whatever it had
  collected from the entries before.  This holds for every parser.
\<close>

theorem scan_all_or_nothing:
  assumes "(k, d) \<in> set (definitionEntries sch)"
    and "tryGetObjectName d = Some n"
    and "\<forall>ty. parse k = Inr ty \<longrightarrow> tn_version ty = None"
  shows "\<exists>e. findApiObjectDefinitions parse sch pfx = Inl e"
  using assms unfolding findApiObjectDefinitions_def by (rule scanEntries_fails)

text \<open>
  On the graph with the accepted entries \<^verbatim>\<open>grp/v1.Widget\<close>, which has a version,
  and then \<^verbatim>\<open>grp.Widget\<close>, which has none, the scan throws at the second entry and
  the descriptor of the first is lost.
\<close>

theorem scan_all_or_nothing_witness:
  "findApiObjectDefinitions parseApiTypeName unversionedSchema ''Kube'' =
     Inl (Error ''Unable to parse version for type: grp.Widget'')"
proof -
  have a: "(''grp.Widget'', widgetNode) \<in> set (definitionEntries unversionedSchema)"
    by (simp add: definitionEntries_def unversionedSchema_def schemaOf_def)
  have b: "\<forall>ty. parseApiTypeName ''grp.Widget'' = Inr ty \<longrightarrow> tn_version ty = None"
    by (auto simp: parse_grp_Widget)
  from scan_all_or_nothing [where parse = parseApiTypeName and pfx = "''Kube''", OF a widgetNode_accepted b]
  show ?thesis
    by (simp add: findApiObjectDefinitions_def definitionEntries_def unversionedSchema_def
          schemaOf_def widgetNode_accepted parse_grp_v1_Widget parse_grp_Widget)
qed

text \<open>
  Claim C6, as the code has it.  The scan makes one descriptor for each accepted entry,
  in the order of the graph: no two descriptors have the same definition key (the keys
  of a graph are distinct, and the parser gives a key back as the full name).  The
  identity of a descriptor is the first-listed identity of its entry, and the scan
  compares no identities: the identities of the descriptors are pairwise distinct
  exactly when those of the accepted entries are.
\<close>

theorem scan_one_descriptor_per_key:
  assumes "distinct (map fst (definitionEntries sch))"
    and "\<forall>k ty. parse k = Inr ty \<longrightarrow> fullname ty = k"
    and "findApiObjectDefinitions parse sch pfx = Inr os"
  shows "map fqn os = map fst (accepted (definitionEntries sch)) \<and>
         distinct (map fqn os) \<and>
         map tripleOf os = acceptedTriples (definitionEntries sch) \<and>
         distinct (map tripleOf os) = distinct (acceptedTriples (definitionEntries sch))"
proof -
  have fq: "map fqn os = map fst (accepted (definitionEntries sch))"
    using assms(2,3) by (rule scan_fqns)
  moreover have "distinct (map fst (accepted (definitionEntries sch)))"
    using assms(1) by (rule accepted_keys_distinct)
  moreover have "map tripleOf os = acceptedTriples (definitionEntries sch)"
    using assms(3) by (rule scan_triples)
  ultimately show ?thesis by simp
qed

text \<open>
  The claim as stated fails: two entries of one graph with the same first-listed identity
  give two different descriptors with the same group, kind and version.
\<close>

theorem scan_repeats_triple:
  "findApiObjectDefinitions parseApiTypeName twoGroupsSchema ''Kube'' =
     Inr [widgetAt ''grp/v1.Widget'', widgetAt ''other/v1.Widget''] \<and>
   widgetAt ''grp/v1.Widget'' \<noteq> widgetAt ''other/v1.Widget'' \<and>
   tripleOf (widgetAt ''grp/v1.Widget'') = tripleOf (widgetAt ''other/v1.Widget'') \<and>
   distinct (map fst (definitionEntries twoGroupsSchema))"
  by (simp add: scan_twoGroupsSchema twoGroupsSchema_entries widgetAt_def tripleOf_def)

theorem scan_one_descriptor_per_key_witness:
  "map fqn [widgetAt ''grp/v1.Widget'', widgetAt ''other/v1.Widget''] =
     [''grp/v1.Widget'', ''other/v1.Widget''] \<and>
   acceptedTriples (definitionEntries twoGroupsSchema) = [widgetIdentity, widgetIdentity] \<and>
   \<not> distinct (map tripleOf [widgetAt ''grp/v1.Widget'', widgetAt ''other/v1.Widget''])"
proof -
  have keys: "distinct (map fst (definitionEntries twoGroupsSchema))"
    by (simp add: twoGroupsSchema_entries)
  have parser: "\<forall>k ty. parseApiTypeName k = Inr ty \<longrightarrow> fullname ty = k"
    by (simp add: parseApiTypeName_fullname)
  from scan_one_descriptor_per_key [OF keys parser scan_twoGroupsSchema]
  show ?thesis
    by (simp add: twoGroupsSchema_entries accepted_def widgetNode_accepted widgetAt_def
          tripleOf_def widgetIdentity_def)
qed

section \<open>The matcher\<close>

text \<open>
  Claim C7.  A version suffix that is not of the form major.minor.patch should make the
  matcher throw before anything else happens.  The matcher validates the piece between
  the first and the second \<^verbatim>\<open>@\<close> only: for the source \<^verbatim>\<open>k8s@1.2.3@x\<close>,
  whose suffix \<^verbatim>\<open>1.2.3@x\<close> does not have the format, it announces the import and
  returns the options for version 1.2.3.
\<close>

theorem match_extra_at:
  "match \<lparr>source = ''k8s@1.2.3@x''\<rparr> \<lparr>argv_exclude = None\<rparr> =
     ([ConsoleError ''Importing k8s v1.2.3...''],
      Inr (Some \<lparr>apiVersion = ''1.2.3'', exclude = None\<rparr>))
   \<and> \<not> k8sVersionRegex_test ''1.2.3@x''"
  by (simp add: match_def startsWith_def k8sVersionOf_def at_def k8sVersionRegex_test_def
        digits1_def isDigit_def Let_def)

text \<open>
  Claim C10.  The source \<^verbatim>\<open>k8s\<close> gets the default version.  The source
  \<^verbatim>\<open>k8s@\<close> is rejected with the format error for the empty version.  A source
  that starts with \<^verbatim>\<open>k8s@\<close> is never "no match": the matcher takes the version
  from the source, the piece after \<^verbatim>\<open>k8s@\<close> up to the next \<^verbatim>\<open>@\<close>, and
  either returns exactly this version or throws the format error for it.  So, whenever
  the matcher returns options, either the source is \<^verbatim>\<open>k8s\<close> and the version is
  the default, or the source has an \<^verbatim>\<open>@\<close> and the version is the one read from
  it; among the sources of this importer the default is taken exactly when the source
  has no \<^verbatim>\<open>@\<close>, which is exactly when it is \<^verbatim>\<open>k8s\<close>.  Every other source
  is "no match".
\<close>

theorem default_version_only_without_at:
  "match \<lparr>source = ''k8s''\<rparr> argv =
     ([ConsoleError ''Importing k8s v1.25.0...''],
      Inr (Some \<lparr>apiVersion = DEFAULT_API_VERSION, exclude = argv_exclude argv\<rparr>)) \<and>
   match \<lparr>source = ''k8s@''\<rparr> argv =
     ([], Inl (Error ''Expected k8s version \"\" to match format \"<major>.<minor>.<patch>\".'')) \<and>
   (startsWith src ''k8s@'' \<longrightarrow>
      snd (match \<lparr>source = src\<rparr> argv) \<noteq> Inr None \<and>
      k8sVersionOf src = hd (split (CHR ''@'') (drop 4 src)) \<and>
      match \<lparr>source = src\<rparr> argv =
        (if k8sVersionRegex_test (hd (split (CHR ''@'') (drop 4 src))) then
           ([ConsoleError (''Importing k8s v'' @ hd (split (CHR ''@'') (drop 4 src)) @ ''...'')],
            Inr (Some \<lparr>apiVersion = hd (split (CHR ''@'') (drop 4 src)),
                        exclude = argv_exclude argv\<rparr>))
         else
           ([], Inl (Error (''Expected k8s version \"'' @ hd (split (CHR ''@'') (drop 4 src)) @
                  ''\" to match format \"<major>.<minor>.<patch>\".''))))) \<and>
   (src = ''k8s'' \<or> startsWith src ''k8s@'' \<longrightarrow>
      (at (split (CHR ''@'') src) 1 = None) = (src = ''k8s'') \<and>
      (CHR ''@'' \<notin> set src) = (src = ''k8s'')) \<and>
   (snd (match \<lparr>source = src\<rparr> argv) = Inr (Some opts) \<longrightarrow>
      (src = ''k8s'' \<and> apiVersion opts = DEFAULT_API_VERSION) \<or>
      (CHR ''@'' \<in> set src \<and> apiVersion opts = hd (split (CHR ''@'') (drop 4 src)))) \<and>
   (src \<noteq> ''k8s'' \<and> \<not> startsWith src ''k8s@'' \<longrightarrow>
      match \<lparr>source = src\<rparr> argv = ([], Inr None))"
proof -
  have n: "match \<lparr>source = src\<rparr> argv = ([], Inr None)"
    if "src \<noteq> ''k8s'' \<and> \<not> startsWith src ''k8s@''"
    using that by (simp add: match_def Let_def)
  have a: "match \<lparr>source = ''k8s''\<rparr> argv =
     ([ConsoleError ''Importing k8s v1.25.0...''],
      Inr (Some \<lparr>apiVersion = DEFAULT_API_VERSION, exclude = argv_exclude argv\<rparr>))"
    by (simp add: match_def k8sVersionOf_def at_def DEFAULT_API_VERSION_def
          k8sVersionRegex_test_def digits1_def isDigit_def Let_def)
  have b: "match \<lparr>source = ''k8s@''\<rparr> argv =
     ([], Inl (Error ''Expected k8s version \"\" to match format \"<major>.<minor>.<patch>\".''))"
    by (simp add: match_def startsWith_def k8sVersionOf_def at_def k8sVersionRegex_test_def
          digits1_def Let_def)
  have v: "k8sVersionOf src = hd (split (CHR ''@'') (drop 4 src))" if s: "startsWith src ''k8s@''"
  proof -
    from s obtain rest where r: "src = ''k8s@'' @ rest" using startsWith_k8s_at by blast
    show ?thesis using k8sVersionOf_suffix [of rest] unfolding r by simp
  qed
  have c: "snd (match \<lparr>source = src\<rparr> argv) \<noteq> Inr None \<and>
      k8sVersionOf src = hd (split (CHR ''@'') (drop 4 src)) \<and>
      match \<lparr>source = src\<rparr> argv =
        (if k8sVersionRegex_test (hd (split (CHR ''@'') (drop 4 src))) then
           ([ConsoleError (''Importing k8s v'' @ hd (split (CHR ''@'') (drop 4 src)) @ ''...'')],
            Inr (Some \<lparr>apiVersion = hd (split (CHR ''@'') (drop 4 src)),
                        exclude = argv_exclude argv\<rparr>))
         else
           ([], Inl (Error (''Expected k8s version \"'' @ hd (split (CHR ''@'') (drop 4 src)) @
                  ''\" to match format \"<major>.<minor>.<patch>\".''))))"
    if s: "startsWith src ''k8s@''"
    using s v [OF s] by (simp add: match_def Let_def)
  have d: "(at (split (CHR ''@'') src) 1 = None) = (src = ''k8s'') \<and>
      (CHR ''@'' \<notin> set src) = (src = ''k8s'')" if s: "src = ''k8s'' \<or> startsWith src ''k8s@''"
  proof -
    have "(CHR ''@'' \<notin> set src) = (src = ''k8s'')"
      using s startsWith_k8s_at_set [of src] startsWith_k8s_at_neq [of src] by auto
    then show ?thesis using at_split_None [of "CHR ''@''" src] by simp
  qed
  have e: "(src = ''k8s'' \<and> apiVersion opts = DEFAULT_API_VERSION) \<or>
      (CHR ''@'' \<in> set src \<and> apiVersion opts = hd (split (CHR ''@'') (drop 4 src)))"
    if r: "snd (match \<lparr>source = src\<rparr> argv) = Inr (Some opts)"
  proof (cases "src = ''k8s''")
    case True
    with r a have "opts = \<lparr>apiVersion = DEFAULT_API_VERSION, exclude = argv_exclude argv\<rparr>"
      by simp
    then have "apiVersion opts = DEFAULT_API_VERSION" by simp
    with True show ?thesis by simp
  next
    case False
    with r have s: "startsWith src ''k8s@''"
      by (auto simp: match_def Let_def split: if_splits)
    from c [OF s] r have "apiVersion opts = hd (split (CHR ''@'') (drop 4 src))"
      by (auto split: if_splits)
    with s startsWith_k8s_at_set [of src] show ?thesis by simp
  qed
  from a b c d e n show ?thesis by blast
qed

theorem default_version_only_without_at_witness:
  "startsWith ''k8s@1.2.3'' ''k8s@'' \<and>
   match \<lparr>source = ''k8s@1.2.3''\<rparr> \<lparr>argv_exclude = None\<rparr> =
     ([ConsoleError ''Importing k8s v1.2.3...''],
      Inr (Some \<lparr>apiVersion = ''1.2.3'', exclude = None\<rparr>)) \<and>
   k8sVersionOf ''k8s@1.2.3'' = ''1.2.3'' \<and>
   hd (split (CHR ''@'') (drop 4 ''k8s@1.2.3'')) = ''1.2.3'' \<and>
   at (split (CHR ''@'') ''k8s@1.2.3'') 1 \<noteq> None \<and>
   CHR ''@'' \<in> set ''k8s@1.2.3''"
  using default_version_only_without_at
          [of "\<lparr>argv_exclude = None\<rparr>" "''k8s@1.2.3''"
              "\<lparr>apiVersion = ''1.2.3'', exclude = None\<rparr>"]
  by (simp add: match_def startsWith_def k8sVersionOf_def at_def k8sVersionRegex_test_def
        digits1_def isDigit_def Let_def)

section \<open>Retrieving the schema\<close>

text \<open>
  Claim C8.  When the download throws, the run prints the hint that ends with the place
  where the available schemas are listed, and throws the same exception again: no
  schema is returned.  When the download succeeds and the text does not parse, the run
  throws an error whose message holds the URL and the text of the parser's exception.
\<close>

theorem downloadSchema_failures:
  "(download (schemaUrl v) = Inl e \<longrightarrow>
      downloadSchema download parse v =
        ([Download (schemaUrl v), ConsoleError (notFoundHint v)], Inl e)) \<and>
   (download (schemaUrl v) = Inr out \<and> parse out = Inl e \<longrightarrow>
      downloadSchema download parse v =
        ([Download (schemaUrl v)],
         Inl (Error (''Unable to parse schema at '' @ schemaUrl v @ '': '' @ toString e)))) \<and>
   (\<exists>a. notFoundHint v =
      a @ ''https://github.com/cdk8s-team/cdk8s/tree/master/kubernetes-schemas.'')"
  by (simp add: downloadSchema_def Let_def notFoundHint_def)

theorem downloadSchema_failures_witness:
  "downloadSchema (\<lambda>url. Inl (Exception ''HTTPError'' ''404'')) (\<lambda>output. Inr objectNode) ''9.9.9'' =
     ([Download (schemaUrl ''9.9.9''), ConsoleError (notFoundHint ''9.9.9'')],
      Inl (Exception ''HTTPError'' ''404'')) \<and>
   downloadSchema (\<lambda>url. Inr ''{'') (\<lambda>output. Inl (Exception ''SyntaxError'' ''Unexpected end''))
       ''1.25.0'' =
     ([Download (schemaUrl ''1.25.0'')],
      Inl (Error (''Unable to parse schema at '' @ schemaUrl ''1.25.0'' @
             '': SyntaxError: Unexpected end'')))"
  using downloadSchema_failures [of "\<lambda>url. Inl (Exception ''HTTPError'' ''404'')" "''9.9.9''"
          "Exception ''HTTPError'' ''404''" "\<lambda>output. Inr objectNode"]
    downloadSchema_failures [of "\<lambda>url. Inr ''{''" "''1.25.0''"
          "Exception ''SyntaxError'' ''Unexpected end''"
          "\<lambda>output. Inl (Exception ''SyntaxError'' ''Unexpected end'')" "''{''"]
  by (simp add: toString_def)

section \<open>The run\<close>




text \<open>
  Claim C3.  For every descriptor that the scan discovers, the run calls
  \<^verbatim>\<open>addDefinition\<close> for the descriptor's key, which is a key of the graph, and goes
  on (second loop, header, rendering) with the engine as the first loop left it.  In the
  graph of this engine the descriptor's key holds the lone reference to the descriptor's
  properties type, so the key resolves through this indirection to the name of the
  properties type; the keys of the graph are the ones it had.
\<close>

theorem rewrite_replaces_key:
  assumes keys: "distinct (map fst (definitionEntries sch))"
    and parser: "\<forall>k ty. c_parseApiTypeName c k = Inr ty \<longrightarrow> fullname ty = k"
    and dl: "downloadSchema (c_download c) (c_safeParseJsonSchema c) (apiVersion opts) = (ev1, Inr sch)"
    and m: "moduleName = ''k8s''"
    and scan: "findApiObjectDefinitions (c_parseApiTypeName c) sch
              (case classNamePrefix options of Some p \<Rightarrow> p | None \<Rightarrow> DEFAULT_CLASS_NAME_PREFIX) = Inr os"
    and obj: "obj \<in> set os"
  shows "let rewritten = snd (rewriteDefinitions (c_getPropsTypeName c) os
                                (newTypeGenerator c opts sch))
         in fqn obj \<in> fst ` set (definitionEntries sch) \<and>
            rewriteEvent (c_getPropsTypeName c) obj \<in>
              set (fst (generateTypeScript c opts moduleName options)) \<and>
            generateTypeScript c opts moduleName options =
              finishRun c (ev1 @ map (rewriteEvent (c_getPropsTypeName c)) os) os rewritten \<and>
            map_of (tg_definitions rewritten) (fqn obj) =
              Some (refTo (''#/definitions/'' @ c_getPropsTypeName c obj)) \<and>
            resolveKey (tg_definitions rewritten) (fqn obj) = Some (c_getPropsTypeName c obj) \<and>
            map fst (tg_definitions rewritten) = map fst (definitionEntries sch)"
proof -
  let ?T = "snd (rewriteDefinitions (c_getPropsTypeName c) os (newTypeGenerator c opts sch))"
  have fq: "map fqn os = map fst (accepted (definitionEntries sch))"
    using parser scan by (rule scan_fqns)
  then have dist: "distinct (map fqn os)"
    using keys by (simp add: accepted_keys_distinct)
  have "fqn ` set os = fst ` set (accepted (definitionEntries sch))"
    using fq by (metis list.set_map)
  then have sub: "fqn ` set os \<subseteq> fst ` set (definitionEntries sch)"
    using accepted_subset by blast
  have g0: "tg_definitions (newTypeGenerator c opts sch) = definitionEntries sch"
    by (simp add: newTypeGenerator_def)
  have 1: "fqn obj \<in> fst ` set (definitionEntries sch)"
    using sub obj by blast
  from generateTypeScript_trace [OF dl m scan]
  have 2: "rewriteEvent (c_getPropsTypeName c) obj \<in>
           set (fst (generateTypeScript c opts moduleName options))"
    using obj by auto
  have 3: "generateTypeScript c opts moduleName options =
              finishRun c (ev1 @ map (rewriteEvent (c_getPropsTypeName c)) os) os ?T"
    using dl m scan by (rule generateTypeScript_late)
  have 4: "map_of (tg_definitions ?T) (fqn obj) =
           Some (refTo (''#/definitions/'' @ c_getPropsTypeName c obj))"
    unfolding rewriteDefinitions_graph
    using fold_update_hit [OF dist obj,
            of "\<lambda>obj. refTo (''#/definitions/'' @ c_getPropsTypeName c obj)"]
    by simp
  have 5: "resolveKey (tg_definitions ?T) (fqn obj) = Some (c_getPropsTypeName c obj)"
    using 4 refName_refTo [of "c_getPropsTypeName c obj"] by (simp add: resolveKey_def)
  have 6: "map fst (tg_definitions ?T) = map fst (definitionEntries sch)"
    unfolding rewriteDefinitions_graph g0
    using sub by (rule fold_update_keys)
  from 1 2 3 4 5 6 show ?thesis by (simp add: Let_def)
qed

theorem rewrite_replaces_key_witness:
  "resolveKey
     (tg_definitions
        (snd (rewriteDefinitions (getPropsTypeName id)
                [deploymentAt ''apps.v1.Deployment'' ''v1'',
                 deploymentAt ''apps.v1beta1.Deployment'' ''v1beta1'']
                (newTypeGenerator (sampleRun deploymentSchema) sampleOptions deploymentSchema))))
     ''apps.v1beta1.Deployment'' = Some ''KubeDeploymentV1Beta1Props'' \<and>
   map_of
     (tg_definitions
        (snd (rewriteDefinitions (getPropsTypeName id)
                [deploymentAt ''apps.v1.Deployment'' ''v1'',
                 deploymentAt ''apps.v1beta1.Deployment'' ''v1beta1'']
                (newTypeGenerator (sampleRun deploymentSchema) sampleOptions deploymentSchema))))
     ''apps.v1beta1.Deployment'' = Some (refTo ''#/definitions/KubeDeploymentV1Beta1Props'') \<and>
   AddDefinition ''apps.v1beta1.Deployment'' (refTo ''#/definitions/KubeDeploymentV1Beta1Props'') \<in>
     set (fst (generateTypeScript (sampleRun deploymentSchema) sampleOptions ''k8s''
                 \<lparr>classNamePrefix = None\<rparr>))"
proof -
  have keys: "distinct (map fst (definitionEntries deploymentSchema))"
    by (simp add: deploymentSchema_entries)
  have parser: "\<forall>k ty. c_parseApiTypeName (sampleRun deploymentSchema) k = Inr ty \<longrightarrow> fullname ty = k"
    by (simp add: sampleRun_def parseApiTypeName_fullname)
  have obj: "deploymentAt ''apps.v1beta1.Deployment'' ''v1beta1'' \<in>
      set [deploymentAt ''apps.v1.Deployment'' ''v1'',
           deploymentAt ''apps.v1beta1.Deployment'' ''v1beta1'']" by simp
  have p: "c_getPropsTypeName (sampleRun deploymentSchema) = getPropsTypeName id"
    by (simp add: sampleRun_def)
  let ?obj = "deploymentAt ''apps.v1beta1.Deployment'' ''v1beta1''"
  let ?T = "snd (rewriteDefinitions (c_getPropsTypeName (sampleRun deploymentSchema))
                   [deploymentAt ''apps.v1.Deployment'' ''v1'', ?obj]
                   (newTypeGenerator (sampleRun deploymentSchema) sampleOptions deploymentSchema))"
  note r = rewrite_replaces_key
         [OF keys parser download_sampleRun refl scan_sampleRun_deploymentSchema obj,
          unfolded Let_def]
  from r have "resolveKey (tg_definitions ?T) (fqn ?obj) =
      Some (c_getPropsTypeName (sampleRun deploymentSchema) ?obj)" by blast
  then have 1: "resolveKey (tg_definitions ?T) ''apps.v1beta1.Deployment'' =
      Some ''KubeDeploymentV1Beta1Props''"
    by (simp only: p props_deployments fqn_deploymentAt)
  from r have "map_of (tg_definitions ?T) (fqn ?obj) =
      Some (refTo (''#/definitions/'' @ c_getPropsTypeName (sampleRun deploymentSchema) ?obj))"
    by blast
  then have 2: "map_of (tg_definitions ?T) ''apps.v1beta1.Deployment'' =
      Some (refTo (''#/definitions/'' @ ''KubeDeploymentV1Beta1Props''))"
    by (simp only: p props_deployments fqn_deploymentAt)
  from r have "rewriteEvent (c_getPropsTypeName (sampleRun deploymentSchema)) ?obj \<in>
      set (fst (generateTypeScript (sampleRun deploymentSchema) sampleOptions ''k8s''
                  \<lparr>classNamePrefix = None\<rparr>))" by blast
  then have 3: "AddDefinition ''apps.v1beta1.Deployment''
        (refTo (''#/definitions/'' @ ''KubeDeploymentV1Beta1Props'')) \<in>
      set (fst (generateTypeScript (sampleRun deploymentSchema) sampleOptions ''k8s''
                  \<lparr>classNamePrefix = None\<rparr>))"
    by (simp only: rewriteEvent_def p props_deployments fqn_deploymentAt)
  from 1 2 3 show ?thesis by (simp add: p)
qed






end
